theory Spec2Isabelle
  imports Main
begin

section \<open>Strings of the contribution dialog\<close>

text \<open>
  The dialog (\<^verbatim>\<open>ContributionDialog.tsx\<close>, \<^verbatim>\<open>ContributionDialog/FormStepNames.tsx\<close>)
  works on JavaScript strings. A string is modelled as a list of code units, a code unit as an
  8-bit \<^typ>\<open>char\<close>: the model covers the strings whose code units are below 256 (ASCII and the
  Latin-1 supplement). The built-in string methods the source calls are given on that range.
\<close>

definition code :: "char \<Rightarrow> nat" where
  "code c = of_char c"

text \<open>The character classes of the regular expressions: \<^verbatim>\<open>[a-z]\<close>, \<^verbatim>\<open>[A-Z]\<close>, \<^verbatim>\<open>[0-9]\<close>.\<close>

definition is_lower :: "char \<Rightarrow> bool" where
  "is_lower c \<longleftrightarrow> 97 \<le> code c \<and> code c \<le> 122"

definition is_upper :: "char \<Rightarrow> bool" where
  "is_upper c \<longleftrightarrow> 65 \<le> code c \<and> code c \<le> 90"

definition is_digit :: "char \<Rightarrow> bool" where
  "is_digit c \<longleftrightarrow> 48 \<le> code c \<and> code c \<le> 57"

text \<open>\<^verbatim>\<open>\w\<close> without the unicode flag is \<^verbatim>\<open>[A-Za-z0-9_]\<close>.\<close>

definition is_word :: "char \<Rightarrow> bool" where
  "is_word c \<longleftrightarrow> is_lower c \<or> is_upper c \<or> is_digit c \<or> c = CHR ''_''"

text \<open>\<^verbatim>\<open>[a-z0-9-]\<close>, the class of both name patterns.\<close>

definition is_name_char :: "char \<Rightarrow> bool" where
  "is_name_char c \<longleftrightarrow> is_lower c \<or> is_digit c \<or> c = CHR ''-''"

text \<open>
  What \<^verbatim>\<open>String.prototype.trim\<close> removes, below 256: TAB, LF, VT, FF, CR, SPACE and the
  no-break space U+00A0.
\<close>

definition is_space :: "char \<Rightarrow> bool" where
  "is_space c \<longleftrightarrow> (9 \<le> code c \<and> code c \<le> 13) \<or> code c = 32 \<or> code c = 160"

text \<open>
  \<^verbatim>\<open>toLowerCase\<close>, below 256: \<^verbatim>\<open>A-Z\<close> and the capital letters U+00C0 to U+00DE of the
  Latin-1 supplement (the multiplication sign U+00D7 apart) move up by 32, every other code
  unit stays.
\<close>

definition lower_char :: "char \<Rightarrow> char" where
  "lower_char c =
     (if is_upper c \<or> (192 \<le> code c \<and> code c \<le> 222 \<and> code c \<noteq> 215)
      then char_of (code c + 32) else c)"

definition toLowerCase :: "string \<Rightarrow> string" where
  "toLowerCase s = map lower_char s"

definition trim :: "string \<Rightarrow> string" where
  "trim s = rev (dropWhile is_space (rev (dropWhile is_space s)))"

text \<open>\<^verbatim>\<open>replaceAll(a, b)\<close> for one-character strings \<^verbatim>\<open>a\<close> and \<^verbatim>\<open>b\<close>.\<close>

definition replaceAll :: "char \<Rightarrow> char \<Rightarrow> string \<Rightarrow> string" where
  "replaceAll a b s = map (\<lambda>c. if c = a then b else c) s"

text \<open>
  \<^verbatim>\<open>replace(/[^\w]+/g, r)\<close>: scanning from the left, a code unit of \<^verbatim>\<open>\w\<close> is kept, and at
  any other code unit the greedy \<^verbatim>\<open>+\<close> takes the whole run of such code units, which is
  replaced by \<^verbatim>\<open>r\<close>.
\<close>

function replace_nonword_runs :: "char \<Rightarrow> string \<Rightarrow> string" where
  "replace_nonword_runs r [] = []"
| "replace_nonword_runs r (c # cs) =
     (if is_word c then c # replace_nonword_runs r cs
      else r # replace_nonword_runs r (dropWhile (\<lambda>d. \<not> is_word d) cs))"
  by pat_completeness auto
termination
  by (relation "measure (\<lambda>(r, s). length s)")
     (auto simp: less_Suc_eq_le length_dropWhile_le)


section \<open>The name schemas\<close>

text \<open>
  A zod string schema runs every check on the value and collects one issue, with the check's
  message, for each check that fails; the value is accepted when no issue was collected, and
  only then the transform runs on it. An issue is the field's name and the message.
\<close>

type_synonym issue = "string \<times> string"

type_synonym check = "(string \<Rightarrow> bool) \<times> string"

definition run_checks :: "string \<Rightarrow> check list \<Rightarrow> string \<Rightarrow> issue list" where
  "run_checks field checks v = map (\<lambda>(p, msg). (field, msg)) (filter (\<lambda>(p, msg). \<not> p v) checks)"

text \<open>\<^verbatim>\<open>/^[a-z][a-z0-9-]*$/\<close>\<close>

fun matches_name_head :: "string \<Rightarrow> bool" where
  "matches_name_head [] = False"
| "matches_name_head (c # cs) = (is_lower c \<and> list_all is_name_char cs)"

text \<open>\<^verbatim>\<open>/^[a-z][a-z0-9-]*[a-z]$/\<close>\<close>

fun matches_name_full :: "string \<Rightarrow> bool" where
  "matches_name_full [] = False"
| "matches_name_full (c # cs) =
     (is_lower c \<and> cs \<noteq> [] \<and> list_all is_name_char (butlast cs) \<and> is_lower (last cs))"

text \<open>
  The checks of the \<^verbatim>\<open>name\<close> field, in the order of the source:
  \<^verbatim>\<open>nonempty\<close>, \<^verbatim>\<open>min(2)\<close>, \<^verbatim>\<open>max(50)\<close> and the two \<^verbatim>\<open>regex\<close> checks.
\<close>

definition name_checks :: "check list" where
  "name_checks =
     [(\<lambda>v. 1 \<le> length v, ''Name is required.''),
      (\<lambda>v. 2 \<le> length v, ''Name must be at least 2 characters long.''),
      (\<lambda>v. length v \<le> 50, ''Name must be between 2 and 50 characters long.''),
      (matches_name_head,
       ''Name must start with a letter and contain only letters, numbers and dashes.''),
      (matches_name_full, ''Name must not end with a number'')]"

text \<open>
  The transform of the \<^verbatim>\<open>name\<close> field:
  \<^verbatim>\<open>value.toLowerCase().replaceAll("-", " ").trim().replaceAll(" ", "-")\<close>.
\<close>

definition name_transform :: "string \<Rightarrow> string" where
  "name_transform v =
     replaceAll CHR '' '' CHR ''-'' (trim (replaceAll CHR ''-'' CHR '' '' (toLowerCase v)))"

definition name_field :: "string \<Rightarrow> issue list + string" where
  "name_field v =
     (case run_checks ''name'' name_checks v of
        [] \<Rightarrow> Inr (name_transform v)
      | i # is \<Rightarrow> Inl (i # is))"

text \<open>
  \<^verbatim>\<open>nameStepSchema\<close> of \<^verbatim>\<open>ContributionDialog.tsx\<close>: an object with the one field
  \<^verbatim>\<open>name\<close>.
\<close>

definition nameStepSchema :: "string \<Rightarrow> issue list + string" where
  "nameStepSchema name = name_field name"

text \<open>
  \<^verbatim>\<open>nameStepSchema\<close> of \<^verbatim>\<open>FormStepNames.tsx\<close>: the same \<^verbatim>\<open>name\<close> field and
  \<^verbatim>\<open>branch: z.string().optional()\<close>, a string that may be absent (\<open>None\<close>) and carries
  no check.
\<close>

record names_input =
  name_in :: string
  branch_in :: "string option"

record names_output =
  name_out :: string
  branch_out :: "string option"

definition branch_field :: "string option \<Rightarrow> issue list + string option" where
  "branch_field b = Inr b"

definition formStepNamesSchema :: "names_input \<Rightarrow> issue list + names_output" where
  "formStepNamesSchema i =
     (case (name_field (name_in i), branch_field (branch_in i)) of
        (Inr n, Inr b) \<Rightarrow> Inr \<lparr>name_out = n, branch_out = b\<rparr>
      | (Inl e, Inr b) \<Rightarrow> Inl e
      | (Inr n, Inl e') \<Rightarrow> Inl e'
      | (Inl e, Inl e') \<Rightarrow> Inl (e @ e'))"

section \<open>The handlers of the name input\<close>

text \<open>
  \<^verbatim>\<open>onChange\<close>: \<^verbatim>\<open>e.target.value.toLowerCase().replace(/[^\w]+/g, "-")\<close>;
  \<^verbatim>\<open>onBlur\<close>:
  \<^verbatim>\<open>e.target.value.toLowerCase().replace(/[^\w]+/g, " ").trim().replaceAll(" ", "-")\<close>.
  Both files have the same two expressions.
\<close>

definition onChange_value :: "string \<Rightarrow> string" where
  "onChange_value v = replace_nonword_runs CHR ''-'' (toLowerCase v)"

definition onBlur_value :: "string \<Rightarrow> string" where
  "onBlur_value v =
     replaceAll CHR '' '' CHR ''-'' (trim (replace_nonword_runs CHR '' '' (toLowerCase v)))"

text \<open>The characters a slug is made of: \<^verbatim>\<open>[a-z0-9_-]\<close>.\<close>

definition is_slug_char :: "char \<Rightarrow> bool" where
  "is_slug_char c \<longleftrightarrow> is_lower c \<or> is_digit c \<or> c = CHR ''_'' \<or> c = CHR ''-''"

text \<open>No two neighbours of a string are both the character \<open>r\<close>.\<close>

definition no_double :: "char \<Rightarrow> string \<Rightarrow> bool" where
  "no_double r s = successively (\<lambda>a b. \<not> (a = r \<and> b = r)) s"

section \<open>The dialog\<close>

subsection \<open>Values and the environment\<close>

text \<open>
  A JavaScript \<^verbatim>\<open>Error\<close> with its message, and a settled promise: resolved with a value or
  rejected with an error. A thrown exception of an \<^verbatim>\<open>async\<close> function is its rejection.
\<close>

datatype js_error = JsError (message: string)

datatype 'a promise = Resolved 'a | Rejected js_error

text \<open>
  The session of \<^verbatim>\<open>useSession()\<close>: \<^verbatim>\<open>session.data?.user\<close> is the signed-in user,
  \<open>None\<close> when \<^verbatim>\<open>data\<close> or \<^verbatim>\<open>user\<close> is missing.
\<close>

record session_user =
  user_image :: "string option"

record session_data =
  user :: "session_user option"

record session =
  data :: "session_data option"

definition session_user_of :: "session \<Rightarrow> session_user option" where
  "session_user_of sess = (case data sess of None \<Rightarrow> None | Some d \<Rightarrow> user d)"

text \<open>\<^verbatim>\<open>session.data?.user?.image || ""\<close>\<close>

definition image_or_empty :: "session \<Rightarrow> string" where
  "image_or_empty sess =
     (case session_user_of sess of
        None \<Rightarrow> []
      | Some u \<Rightarrow> (case user_image u of None \<Rightarrow> [] | Some i \<Rightarrow> i))"

text \<open>
  \<^verbatim>\<open>JSON.parse(x).login\<close> throws, or is \<^verbatim>\<open>undefined\<close>, or is a string. The parser is not
  part of the component: it is a parameter of the model.
\<close>

datatype login_result = Throws js_error | NoLogin | Login string

text \<open>
  A response of \<^verbatim>\<open>fetch\<close>: its \<^verbatim>\<open>ok\<close> flag and what \<^verbatim>\<open>text()\<close> and \<^verbatim>\<open>json()\<close> settle
  to. The JSON body is taken at the type the component reads it at.
\<close>

record 'a response =
  ok :: bool
  body_text :: "string promise"
  body_json :: "'a promise"

text \<open>The body of the metadata lookup.\<close>

record metadata =
  categories :: "string list"
  tags :: "string list"
  contributors :: "string list"

text \<open>
  The body of the submission's response. A field of it is missing (\<^verbatim>\<open>undefined\<close>),
  \<^verbatim>\<open>null\<close> or a string.
\<close>

datatype json_field = Absent | JNull | JString string

record pr_urls =
  pullRequestCreationUrl :: json_field
  pullRequestExistingUrl :: json_field

text \<open>A JSON value that the component sends; an object keeps its keys in order.\<close>

datatype json = JStr string | JArr "json list" | JObj "(string \<times> json) list"

text \<open>
  What the component does to the outside and to its own state, in the order it does it:
  calls of \<^verbatim>\<open>signIn\<close>, \<^verbatim>\<open>fetch\<close> (GET of a URL, POST of a body to a URL),
  \<^verbatim>\<open>setTimeout\<close> waits, \<^verbatim>\<open>window.open\<close>, the setters of the query states
  \<^verbatim>\<open>step\<close>, \<^verbatim>\<open>name\<close> and \<^verbatim>\<open>contributionDialog\<close>, \<^verbatim>\<open>field.onChange\<close> of the
  name form's field, and \<^verbatim>\<open>setValue\<close> and \<^verbatim>\<open>setError\<close> of the metadata form.
\<close>

datatype field = Categories | Tags | Contributors

datatype effect =
    SignIn string
  | FetchGet string
  | FetchPost string json
  | Delay nat
  | WindowOpen string string
  | SetStep string
  | SetName string
  | SetOpen bool
  | FieldOnChange string
  | SetValue field "string option"
  | SetError string string

fun is_request :: "effect \<Rightarrow> bool" where
  "is_request (FetchGet url) = True"
| "is_request (FetchPost url body) = True"
| "is_request e = False"

fun is_window_open :: "effect \<Rightarrow> bool" where
  "is_window_open (WindowOpen url target) = True"
| "is_window_open e = False"

record dialog_env =
  session :: session
  parse_login :: "string \<Rightarrow> login_result"
  new_URL :: "string \<Rightarrow> js_error + string"
  value_prop :: string

subsection \<open>Arrays and strings of the handlers\<close>

text \<open>\<^verbatim>\<open>arr.join(sep)\<close> on strings; an \<^verbatim>\<open>undefined\<close> element prints as the empty string.\<close>

fun join :: "string \<Rightarrow> string list \<Rightarrow> string" where
  "join sep [] = []"
| "join sep [x] = x"
| "join sep (x # y # ys) = x @ sep @ join sep (y # ys)"

fun string_of :: "string option \<Rightarrow> string" where
  "string_of None = []"
| "string_of (Some v) = v"

text \<open>\<^verbatim>\<open>arr.indexOf(v)\<close>: the first index of \<open>v\<close>, \<open>None\<close> for \<^verbatim>\<open>-1\<close>.\<close>

fun indexOf :: "'a list \<Rightarrow> 'a \<Rightarrow> nat option" where
  "indexOf [] v = None"
| "indexOf (x # xs) v = (if x = v then Some 0 else map_option Suc (indexOf xs v))"

text \<open>A value is truthy when it is neither \<^verbatim>\<open>undefined\<close> nor the empty string.\<close>

fun truthy :: "string option \<Rightarrow> bool" where
  "truthy None = False"
| "truthy (Some v) = (v \<noteq> [])"

text \<open>\<^verbatim>\<open>arr.filter((val, idx, arr) => val && arr.indexOf(val) === idx)\<close>\<close>

definition first_truthy_occurrences :: "string option list \<Rightarrow> string option list" where
  "first_truthy_occurrences arr =
     map snd (filter (\<lambda>(idx, val). truthy val \<and> indexOf arr val = Some idx) (enumerate 0 arr))"

text \<open>
  \<^verbatim>\<open>s.split(sep)\<close> for a one-character separator: the pieces between the separators, one
  piece more than there are separators (the empty string has the one piece \<^verbatim>\<open>""\<close>).
\<close>

fun split :: "char \<Rightarrow> string \<Rightarrow> string list" where
  "split sep [] = [[]]"
| "split sep (c # cs) =
     (if c = sep then [] # split sep cs
      else (case split sep cs of
              [] \<Rightarrow> [[c]]
            | w # ws \<Rightarrow> (c # w) # ws))"

text \<open>
  \<^verbatim>\<open>{...o, k: v}\<close>: a key of \<open>o\<close> keeps its place and takes the new value, a new key goes
  to the end.
\<close>

fun obj_set :: "string \<Rightarrow> json \<Rightarrow> (string \<times> json) list \<Rightarrow> (string \<times> json) list" where
  "obj_set k v [] = [(k, v)]"
| "obj_set k v ((k', v') # kvs) =
     (if k' = k then (k, v) # kvs else (k', v') # obj_set k v kvs)"

subsection \<open>The state of the component\<close>

text \<open>
  The three query states (\<open>None\<close>: the parameter is not in the URL), the value of the name
  form's field, and the metadata form: its three values (\<open>None\<close>: \<^verbatim>\<open>undefined\<close>, the
  form has no default values) and the message of its \<^verbatim>\<open>root.serverError\<close>.
\<close>

record dialog_state =
  step_q :: "string option"
  name_q :: "string option"
  open_q :: "string option"
  name_v :: string
  categories_v :: "string option"
  tags_v :: "string option"
  contributors_v :: "string option"
  server_error :: "string option"

text \<open>\<^verbatim>\<open>useQueryState("step", { defaultValue: "name" })\<close>\<close>

definition step :: "dialog_state \<Rightarrow> string" where
  "step st = (case step_q st of None \<Rightarrow> ''name'' | Some v \<Rightarrow> v)"

text \<open>\<^verbatim>\<open>useQueryState("name", { defaultValue: "" })\<close>\<close>

definition name :: "dialog_state \<Rightarrow> string" where
  "name st = (case name_q st of None \<Rightarrow> [] | Some v \<Rightarrow> v)"

text \<open>
  \<^verbatim>\<open>useQueryState("contributionDialog", { defaultValue: false, parse: (query) => query === "true" })\<close>
\<close>

definition is_open :: "dialog_state \<Rightarrow> bool" where
  "is_open st = (case open_q st of None \<Rightarrow> False | Some q \<Rightarrow> q = ''true'')"

text \<open>What the dialog shows: \<^verbatim>\<open>step === "name" ? <name form> : <metadata form>\<close>.\<close>

datatype view = NameForm | MetadataForm

definition render :: "dialog_state \<Rightarrow> view" where
  "render st = (if step st = ''name'' then NameForm else MetadataForm)"

fun apply_effect :: "effect \<Rightarrow> dialog_state \<Rightarrow> dialog_state" where
  "apply_effect (SetStep v) st = st\<lparr>step_q := Some v\<rparr>"
| "apply_effect (SetName v) st = st\<lparr>name_q := Some v\<rparr>"
| "apply_effect (SetOpen b) st = st\<lparr>open_q := Some (if b then ''true'' else ''false'')\<rparr>"
| "apply_effect (FieldOnChange v) st = st\<lparr>name_v := v\<rparr>"
| "apply_effect (SetValue Categories v) st = st\<lparr>categories_v := v\<rparr>"
| "apply_effect (SetValue Tags v) st = st\<lparr>tags_v := v\<rparr>"
| "apply_effect (SetValue Contributors v) st = st\<lparr>contributors_v := v\<rparr>"
| "apply_effect (SetError path msg) st =
     (if path = ''root.serverError'' then st\<lparr>server_error := Some msg\<rparr> else st)"
| "apply_effect (SignIn provider) st = st"
| "apply_effect (FetchGet url) st = st"
| "apply_effect (FetchPost url body) st = st"
| "apply_effect (Delay ms) st = st"
| "apply_effect (WindowOpen url target) st = st"

definition apply_effects :: "effect list \<Rightarrow> dialog_state \<Rightarrow> dialog_state" where
  "apply_effects effs st = foldl (\<lambda>s e. apply_effect e s) st effs"

subsection \<open>The name step's mutation\<close>

definition nl :: char where
  "nl = CHR 0x0A"

fun login_value :: "login_result \<Rightarrow> string option" where
  "login_value (Login l) = Some l"
| "login_value NoLogin = None"
| "login_value (Throws e) = None"

text \<open>
  \<^verbatim>\<open>mutationFn\<close> of \<^verbatim>\<open>onNameNext\<close>. \<open>fetched\<close> is what the \<^verbatim>\<open>fetch\<close> settles to when it is
  called. The function returns its effects and what it settles to; \<open>Resolved None\<close> is the
  \<^verbatim>\<open>return;\<close> after \<^verbatim>\<open>signIn\<close>, \<^verbatim>\<open>undefined\<close>. The call of \<^verbatim>\<open>signIn\<close> is one
  effect: what the identity provider's library does in it is not the component's, and the
  call is taken to come back.
\<close>

definition onNameNext_mutationFn ::
  "session \<Rightarrow> metadata response promise \<Rightarrow> string \<Rightarrow> effect list \<times> metadata option promise"
where
  "onNameNext_mutationFn sess fetched nm =
     (case session_user_of sess of
        None \<Rightarrow> ([SignIn ''github''], Resolved None)
      | Some u \<Rightarrow>
          ([FetchGet (''/api/metadata/'' @ nm)],
           (case fetched of
              Rejected e \<Rightarrow> Rejected e
            | Resolved res \<Rightarrow>
                (case body_json res of
                   Rejected e \<Rightarrow> Rejected e
                 | Resolved d \<Rightarrow> Resolved (Some d)))))"

text \<open>
  \<^verbatim>\<open>onSuccess\<close> of \<^verbatim>\<open>onNameNext\<close>. The form's values are read once, before any of them is
  set. When \<^verbatim>\<open>JSON.parse\<close> throws, the two values set before it stay set.
\<close>

definition onNameNext_onSuccess ::
  "dialog_env \<Rightarrow> dialog_state \<Rightarrow> metadata option \<Rightarrow> effect list \<times> unit promise"
where
  "onNameNext_onSuccess env st dat =
     (case dat of
        None \<Rightarrow> ([], Resolved ())
      | Some d \<Rightarrow>
          (let set_categories =
                 (if \<not> truthy (categories_v st)
                  then [SetValue Categories (Some (join [nl] (categories d)))] else []);
               set_tags =
                 (if \<not> truthy (tags_v st)
                  then [SetValue Tags (Some (join [nl] (tags d)))] else [])
           in if \<not> truthy (contributors_v st)
              then (case parse_login env (image_or_empty (session env)) of
                      Throws e \<Rightarrow> (set_categories @ set_tags, Rejected e)
                    | r \<Rightarrow>
                        (set_categories @ set_tags @
                         [SetValue Contributors
                            (Some (join [nl] (map string_of
                               (first_truthy_occurrences
                                  (map Some (contributors d) @ [login_value r]))))),
                          SetStep ''metadata''],
                         Resolved ()))
              else (set_categories @ set_tags @ [SetStep ''metadata''], Resolved ())))"

text \<open>\<^verbatim>\<open>onError\<close> of \<^verbatim>\<open>onNameNext\<close>.\<close>

definition onNameNext_onError :: "dialog_env \<Rightarrow> js_error \<Rightarrow> effect list \<times> unit promise" where
  "onNameNext_onError env err =
     (case parse_login env (image_or_empty (session env)) of
        Throws e \<Rightarrow> ([], Rejected e)
      | r \<Rightarrow> ([SetValue Contributors (login_value r), SetStep ''metadata''], Resolved ()))"

text \<open>
  \<^verbatim>\<open>useMutation\<close>: when \<^verbatim>\<open>mutationFn\<close> resolves, \<^verbatim>\<open>onSuccess\<close> runs on its value; when it
  rejects, or when \<^verbatim>\<open>onSuccess\<close> itself rejects, \<^verbatim>\<open>onError\<close> runs on the error.
\<close>

definition run_mutation ::
  "effect list \<times> 'd promise \<Rightarrow> ('d \<Rightarrow> effect list \<times> unit promise) \<Rightarrow>
   (js_error \<Rightarrow> effect list \<times> unit promise) \<Rightarrow> effect list"
where
  "run_mutation settled onSuccess onError =
     (case settled of
        (effs, Resolved d) \<Rightarrow>
          (case onSuccess d of
             (effs', Resolved u) \<Rightarrow> effs @ effs'
           | (effs', Rejected e) \<Rightarrow> effs @ effs' @ fst (onError e))
      | (effs, Rejected e) \<Rightarrow> effs @ fst (onError e))"

definition onNameNext ::
  "dialog_env \<Rightarrow> dialog_state \<Rightarrow> metadata response promise \<Rightarrow> string \<Rightarrow> effect list"
where
  "onNameNext env st fetched nm =
     run_mutation (onNameNext_mutationFn (session env) fetched nm)
       (onNameNext_onSuccess env st) (onNameNext_onError env)"

subsection \<open>The submission\<close>

text \<open>The validated values of the metadata form.\<close>

record metadata_values =
  v_categories :: string
  v_tags :: string
  v_contributors :: string

definition trimmed_lines :: "string \<Rightarrow> json" where
  "trimmed_lines v = JArr (map (\<lambda>val. JStr (trim val)) (split nl v))"

text \<open>
  The object given to \<^verbatim>\<open>JSON.stringify\<close>. \<^verbatim>\<open>values\<close> is \<^verbatim>\<open>{ ...vars, name }\<close>, the
  form's values in the order of the schema and then the name.
\<close>

definition submit_body :: "string \<Rightarrow> metadata_values \<Rightarrow> string \<Rightarrow> json" where
  "submit_body val vars nm =
     JObj
       (obj_set ''value'' (JStr val)
         (obj_set ''categories'' (trimmed_lines (v_categories vars))
           (obj_set ''tags'' (trimmed_lines (v_tags vars))
             (obj_set ''contributors'' (trimmed_lines (v_contributors vars))
               (obj_set ''name'' (JStr nm)
                 [(''categories'', JStr (v_categories vars)),
                  (''tags'', JStr (v_tags vars)),
                  (''contributors'', JStr (v_contributors vars))])))))"

text \<open>
  \<^verbatim>\<open>mutationFn\<close> of \<^verbatim>\<open>onSubmit\<close>: the POST is started, the function waits 1500 ms and
  returns the promise of the checked response.
\<close>

definition onSubmit_mutationFn ::
  "session \<Rightarrow> string \<Rightarrow> pr_urls response promise \<Rightarrow> metadata_values \<Rightarrow> string \<Rightarrow>
   effect list \<times> pr_urls response option promise"
where
  "onSubmit_mutationFn sess val fetched vars nm =
     (case session_user_of sess of
        None \<Rightarrow> ([SignIn ''github''], Resolved None)
      | Some u \<Rightarrow>
          ([FetchPost ''/api/submit'' (submit_body val vars nm), Delay 1500],
           (case fetched of
              Rejected e \<Rightarrow> Rejected e
            | Resolved res \<Rightarrow>
                if \<not> ok res
                then (case body_text res of
                        Rejected e \<Rightarrow> Rejected e
                      | Resolved t \<Rightarrow> Rejected (JsError t))
                else Resolved (Some res))))"

text \<open>\<^verbatim>\<open>a ?? b\<close>, and the string that \<^verbatim>\<open>new URL\<close> makes of its argument.\<close>

fun nullish_or :: "json_field \<Rightarrow> json_field \<Rightarrow> json_field" where
  "nullish_or (JString s) b = JString s"
| "nullish_or Absent b = b"
| "nullish_or JNull b = b"

fun field_string :: "json_field \<Rightarrow> string" where
  "field_string (JString s) = s"
| "field_string Absent = ''undefined''"
| "field_string JNull = ''null''"

text \<open>
  \<^verbatim>\<open>onSuccess\<close> of \<^verbatim>\<open>onSubmit\<close>. \<^verbatim>\<open>new URL\<close> throws on a string that is not an absolute
  URL and gives the URL's normalised text otherwise; it is a parameter of the model.
\<close>

definition onSubmit_onSuccess ::
  "dialog_env \<Rightarrow> pr_urls response option \<Rightarrow> effect list \<times> unit promise"
where
  "onSubmit_onSuccess env res =
     (case res of
        None \<Rightarrow> ([], Resolved ())
      | Some r \<Rightarrow>
          (case body_json r of
             Rejected e \<Rightarrow> ([], Rejected e)
           | Resolved urls \<Rightarrow>
               (case new_URL env (field_string
                       (nullish_or (pullRequestExistingUrl urls) (pullRequestCreationUrl urls))) of
                  Inl e \<Rightarrow> ([], Rejected e)
                | Inr url \<Rightarrow>
                    ([WindowOpen url ''_blank'', Delay 2000, SetOpen False], Resolved ()))))"

text \<open>\<^verbatim>\<open>onError\<close> of \<^verbatim>\<open>onSubmit\<close>.\<close>

definition onSubmit_onError :: "js_error \<Rightarrow> effect list \<times> unit promise" where
  "onSubmit_onError err =
     ([SetError ''root.serverError''
         (if message err = [] then ''An error occurred while submitting the form.''
          else message err)],
      Resolved ())"

definition onSubmit ::
  "dialog_env \<Rightarrow> pr_urls response promise \<Rightarrow> metadata_values \<Rightarrow> string \<Rightarrow> effect list"
where
  "onSubmit env fetched vars nm =
     run_mutation (onSubmit_mutationFn (session env) (value_prop env) fetched vars nm)
       (onSubmit_onSuccess env) onSubmit_onError"

subsection \<open>The wizard\<close>

text \<open>
  The events of \<^verbatim>\<open>ContributionDialog.tsx\<close>: the name form's submit with its validated
  name, the metadata form's submit with its validated values (the name is read from the
  query state), each with what its request settles to, the click on Back, a change and a
  blur of the name input with the input's text, and \<^verbatim>\<open>onOpenChange\<close> of the dialog.
\<close>

datatype event =
    NameNext string "metadata response promise"
  | Submit metadata_values "pr_urls response promise"
  | Back
  | NameChange string
  | NameBlur string
  | OpenChange bool

text \<open>
  The subscriber of \<^verbatim>\<open>watch\<close> runs after \<^verbatim>\<open>field.onChange\<close>:
  \<^verbatim>\<open>if (values.name) { setName(values.name) }\<close>.
\<close>

definition name_edited :: "string \<Rightarrow> effect list" where
  "name_edited v = FieldOnChange v # (if v \<noteq> [] then [SetName v] else [])"

fun effects_of :: "dialog_env \<Rightarrow> dialog_state \<Rightarrow> event \<Rightarrow> effect list" where
  "effects_of env st (NameNext nm fetched) = onNameNext env st fetched nm"
| "effects_of env st (Submit vars fetched) = onSubmit env fetched vars (name st)"
| "effects_of env st Back = [SetStep ''name'']"
| "effects_of env st (NameChange raw) = name_edited (onChange_value raw)"
| "effects_of env st (NameBlur raw) = name_edited (onBlur_value raw)"
| "effects_of env st (OpenChange b) = [SetOpen b]"

definition dispatch :: "dialog_env \<Rightarrow> dialog_state \<Rightarrow> event \<Rightarrow> dialog_state" where
  "dispatch env st ev = apply_effects (effects_of env st ev) st"

fun is_NameNext :: "event \<Rightarrow> bool" where
  "is_NameNext (NameNext nm fetched) = True"
| "is_NameNext ev = False"

subsection \<open>Example values\<close>

text \<open>A signed-in session, a session without a user, and a dialog in its first state.\<close>

definition example_env :: dialog_env where
  "example_env =
     \<lparr>session = \<lparr>data = Some \<lparr>user = Some \<lparr>user_image = Some ''{login: octocat}''\<rparr>\<rparr>\<rparr>,
      parse_login = (\<lambda>s. if s = [] then Throws (JsError ''Unexpected end of JSON input'')
                          else Login ''octocat''),
      new_URL = (\<lambda>s. if take 8 s = ''https://'' then Inr s else Inl (JsError ''Invalid URL'')),
      value_prop = ''<path/>''\<rparr>"

definition example_signed_out :: session where
  "example_signed_out = \<lparr>data = None\<rparr>"

definition example_state :: dialog_state where
  "example_state =
     \<lparr>step_q = None, name_q = Some ''arrow-up'', open_q = Some ''true'',
      name_v = ''arrow-up'', categories_v = None, tags_v = Some ''up'', contributors_v = Some [],
      server_error = None\<rparr>"

definition example_lookup :: "metadata response" where
  "example_lookup =
     \<lparr>ok = True, body_text = Resolved [],
      body_json = Resolved \<lparr>categories = [''arrows'', ''navigation''], tags = [''north''],
                            contributors = [''ericfennis'', ''octocat'', ''ericfennis'']\<rparr>\<rparr>"

definition example_values :: metadata_values where
  "example_values =
     \<lparr>v_categories = ''arrows'', v_tags = [CHR ''u'', CHR ''p'', CHR '' '', nl, CHR ''n''],
      v_contributors = ''octocat''\<rparr>"

definition example_created :: "pr_urls response" where
  "example_created =
     \<lparr>ok = True, body_text = Resolved [],
      body_json = Resolved \<lparr>pullRequestCreationUrl = JString ''https://github.com/compare'',
                            pullRequestExistingUrl = Absent\<rparr>\<rparr>"

definition example_refused :: "pr_urls response" where
  "example_refused =
     \<lparr>ok = False, body_text = Resolved ''Icon already exists'',
      body_json = Rejected (JsError ''Unexpected token'')\<rparr>"

definition example_existing :: "pr_urls response" where
  "example_existing =
     \<lparr>ok = True, body_text = Resolved [],
      body_json = Resolved \<lparr>pullRequestCreationUrl = JString ''https://github.com/compare'',
                            pullRequestExistingUrl = JString ''https://github.com/pull/7''\<rparr>\<rparr>"

section \<open>Facts about the string functions\<close>

lemma code_simps:
  "code CHR ''-'' = 45" "code CHR '' '' = 32" "code CHR ''_'' = 95"
  by (simp_all add: code_def)

lemma name_char_not_space: "is_name_char c \<Longrightarrow> c \<noteq> CHR '' ''"
  by (auto simp: is_name_char_def is_lower_def is_digit_def code_simps)

lemma lower_not_space: "is_lower c \<Longrightarrow> \<not> is_space c"
  by (auto simp: is_lower_def is_space_def)

lemma lower_char_name_char: "is_name_char c \<Longrightarrow> lower_char c = c"
  by (auto simp: is_name_char_def lower_char_def is_lower_def is_digit_def is_upper_def code_simps)

lemma toLowerCase_name: "list_all is_name_char s \<Longrightarrow> toLowerCase s = s"
  by (induction s) (simp_all add: toLowerCase_def lower_char_name_char)

lemma trim_id: "s \<noteq> [] \<Longrightarrow> \<not> is_space (hd s) \<Longrightarrow> \<not> is_space (last s) \<Longrightarrow> trim s = s"
  by (simp add: trim_def dropWhile_eq_self_iff[THEN iffD2] hd_rev)

lemma replaceAll_back:
  "a \<notin> set s \<Longrightarrow> replaceAll a b (replaceAll b a s) = s"
  by (induction s) (auto simp: replaceAll_def)

lemma hd_replaceAll: "s \<noteq> [] \<Longrightarrow> hd (replaceAll a b s) = (if hd s = a then b else hd s)"
  by (cases s) (simp_all add: replaceAll_def)

lemma last_replaceAll: "s \<noteq> [] \<Longrightarrow> last (replaceAll a b s) = (if last s = a then b else last s)"
  by (simp add: replaceAll_def last_map)

lemma replaceAll_Nil: "replaceAll a b s = [] \<longleftrightarrow> s = []"
  by (simp add: replaceAll_def)

lemma lower_not_dash: "is_lower c \<Longrightarrow> c \<noteq> CHR ''-''"
  by (auto simp: is_lower_def code_simps)

lemma name_transform_fixes:
  assumes "s \<noteq> []" "is_lower (hd s)" "is_lower (last s)" "list_all is_name_char s"
  shows "name_transform s = s"
proof -
  let ?t = "replaceAll CHR ''-'' CHR '' '' s"
  have t: "?t \<noteq> []" using assms(1) by (simp add: replaceAll_Nil)
  have "hd ?t = hd s" "last ?t = last s"
    using assms by (simp_all add: hd_replaceAll last_replaceAll lower_not_dash)
  then have "trim ?t = ?t"
    using assms t by (simp add: trim_id lower_not_space)
  moreover have "CHR '' '' \<notin> set s"
    using assms(4) name_char_not_space by (auto simp: list_all_iff)
  ultimately show ?thesis
    using assms(4) by (simp add: name_transform_def toLowerCase_name replaceAll_back)
qed

lemma lower_name_char: "is_lower c \<Longrightarrow> is_name_char c"
  by (simp add: is_name_char_def)

lemma matches_name_full_iff:
  "matches_name_full s \<longleftrightarrow>
     2 \<le> length s \<and> is_lower (hd s) \<and> is_lower (last s) \<and> list_all is_name_char s"
proof (cases s)
  case Nil
  then show ?thesis by simp
next
  case (Cons c cs)
  show ?thesis
  proof (cases "cs = []")
    case True
    with Cons show ?thesis by simp
  next
    case False
    have "list_all is_name_char (butlast cs @ [last cs]) \<longleftrightarrow>
        list_all is_name_char (butlast cs) \<and> is_name_char (last cs)"
      by (simp del: append_butlast_last_id)
    with False have "list_all is_name_char cs \<longleftrightarrow>
        list_all is_name_char (butlast cs) \<and> is_name_char (last cs)"
      by simp
    with Cons False show ?thesis
      by (cases cs) (auto simp: lower_name_char)
  qed
qed

lemma matches_full_head: "matches_name_full s \<Longrightarrow> matches_name_head s"
  unfolding matches_name_full_iff by (cases s) auto

lemma run_name_checks_Nil:
  "run_checks ''name'' name_checks s = [] \<longleftrightarrow>
     2 \<le> length s \<and> length s \<le> 50 \<and> matches_name_full s"
  using matches_full_head[of s]
  by (auto simp: run_checks_def name_checks_def)

lemma name_field_cases:
  "name_field s =
     (if 2 \<le> length s \<and> length s \<le> 50 \<and> is_lower (hd s) \<and> is_lower (last s)
         \<and> list_all is_name_char s
      then Inr s else Inl (run_checks ''name'' name_checks s))"
proof (cases "run_checks ''name'' name_checks s")
  case Nil
  then have ok: "2 \<le> length s \<and> length s \<le> 50 \<and> is_lower (hd s) \<and> is_lower (last s)
         \<and> list_all is_name_char s"
    by (simp add: run_name_checks_Nil matches_name_full_iff)
  then have "s \<noteq> []" by auto
  with ok have "name_transform s = s" by (simp add: name_transform_fixes)
  with Nil ok show ?thesis by (simp add: name_field_def)
next
  case (Cons i "is")
  then have "\<not> (2 \<le> length s \<and> length s \<le> 50 \<and> matches_name_full s)"
    using run_name_checks_Nil[of s] by simp
  with Cons show ?thesis by (auto simp add: name_field_def matches_name_full_iff)
qed

lemma run_name_checks_Cons:
  "run_checks ''name'' name_checks s \<noteq> [] \<Longrightarrow>
     \<exists>i is. run_checks ''name'' name_checks s = i # is"
  by (cases "run_checks ''name'' name_checks s") simp_all

lemma lower_char_not_upper: "\<not> is_upper (lower_char c)"
  by (auto simp: lower_char_def is_upper_def code_def)

lemma word_not_upper: "is_word c \<Longrightarrow> \<not> is_upper c \<Longrightarrow> is_slug_char c"
  by (auto simp: is_word_def is_slug_char_def)

lemma space_not_word: "\<not> is_word CHR '' ''"
  by (simp add: is_word_def is_lower_def is_upper_def is_digit_def code_simps)

lemma dash_not_word: "\<not> is_word CHR ''-''"
  by (simp add: is_word_def is_lower_def is_upper_def is_digit_def code_simps)

lemma space_is_space: "is_space CHR '' ''"
  by (simp add: is_space_def code_simps)

lemma word_not_space: "is_word c \<Longrightarrow> \<not> is_space c"
  by (auto simp: is_word_def is_lower_def is_upper_def is_digit_def is_space_def code_simps)

lemma lower_char_slug: "is_slug_char c \<Longrightarrow> lower_char c = c"
  by (auto simp: is_slug_char_def lower_char_def is_lower_def is_digit_def is_upper_def code_simps)

lemma replace_nonword_runs_set:
  "c \<in> set (replace_nonword_runs r s) \<Longrightarrow> c = r \<or> (c \<in> set s \<and> is_word c)"
  by (induction r s rule: replace_nonword_runs.induct)
     (auto split: if_splits dest: set_dropWhileD)

lemma replace_nonword_runs_hd_word:
  "xs = [] \<or> is_word (hd xs) \<Longrightarrow>
   replace_nonword_runs r xs = [] \<or> is_word (hd (replace_nonword_runs r xs))"
  by (cases xs) auto

lemma replace_nonword_runs_after_run:
  "replace_nonword_runs r (dropWhile (\<lambda>d. \<not> is_word d) cs) = [] \<or>
   is_word (hd (replace_nonword_runs r (dropWhile (\<lambda>d. \<not> is_word d) cs)))"
  using hd_dropWhile[of "\<lambda>d. \<not> is_word d" cs]
  by (intro replace_nonword_runs_hd_word) blast

lemma replace_nonword_runs_no_double:
  "\<not> is_word r \<Longrightarrow> no_double r (replace_nonword_runs r s)"
proof (induction r s rule: replace_nonword_runs.induct)
  case (1 r)
  then show ?case by (simp add: no_double_def)
next
  case (2 r c cs)
  show ?case
  proof (cases "is_word c")
    case True
    with 2 show ?thesis
      by (auto simp: no_double_def successively_Cons)
  next
    case False
    with 2 replace_nonword_runs_after_run[of r cs] show ?thesis
      by (auto simp: no_double_def successively_Cons)
  qed
qed

lemma no_double_dropWhile: "no_double r s \<Longrightarrow> no_double r (dropWhile P s)"
proof -
  assume "no_double r s"
  then have "no_double r (takeWhile P s @ dropWhile P s)" by simp
  then show ?thesis
    unfolding no_double_def successively_append_iff by blast
qed

lemma no_double_rev: "no_double r (rev s) = no_double r s"
  unfolding no_double_def successively_rev
  by (rule arg_cong[where f="\<lambda>P. successively P s"]) auto

lemma no_double_trim: "no_double r s \<Longrightarrow> no_double r (trim s)"
  by (simp add: trim_def no_double_rev no_double_dropWhile)

lemma set_trim: "c \<in> set (trim s) \<Longrightarrow> c \<in> set s"
  by (auto simp: trim_def dest!: set_dropWhileD)

lemma trim_ends:
  assumes "trim s \<noteq> []"
  shows "\<not> is_space (hd (trim s))" and "\<not> is_space (last (trim s))"
proof -
  let ?a = "dropWhile is_space s"
  let ?b = "dropWhile is_space (rev ?a)"
  have b: "?b \<noteq> []" using assms by (simp add: trim_def)
  then have "\<not> is_space (hd ?b)" by (rule hd_dropWhile)
  with b show "\<not> is_space (last (trim s))"
    by (simp add: trim_def last_rev)
  have a: "?a \<noteq> []" using b by (metis dropWhile.simps(1) rev.simps(1))
  then have ha: "\<not> is_space (hd ?a)" by (rule hd_dropWhile)
  have "rev ?a = takeWhile is_space (rev ?a) @ ?b" by simp
  then have "?a = rev ?b @ rev (takeWhile is_space (rev ?a))"
    by (metis rev_append rev_rev_ident)
  then have "hd ?a = hd (rev ?b)" using b
    by (metis hd_append2 rev_is_Nil_conv)
  with ha show "\<not> is_space (hd (trim s))" by (simp add: trim_def)
qed

lemma trim_Nil: "trim [] = []"
  by (simp add: trim_def)

lemma trim_trim: "trim (trim s) = trim s"
  by (cases "trim s = []") (simp_all add: trim_Nil trim_id trim_ends)

lemma trim_decomposition:
  "\<exists>a b. s = a @ trim s @ b \<and> list_all is_space a \<and> list_all is_space b"
proof -
  let ?s1 = "dropWhile is_space s"
  let ?a = "takeWhile is_space s"
  let ?b = "rev (takeWhile is_space (rev ?s1))"
  have "?s1 = trim s @ ?b"
    unfolding trim_def by (metis rev_append rev_rev_ident takeWhile_dropWhile_id)
  then have "s = ?a @ trim s @ ?b"
    by (metis takeWhile_dropWhile_id)
  moreover have "list_all is_space ?a" "list_all is_space ?b"
    by (auto simp: list_all_iff dest: set_takeWhileD)
  ultimately show ?thesis by blast
qed

lemma replace_runs_of_dashed:
  "(\<forall>c\<in>set t. is_word c \<or> c = CHR '' '') \<Longrightarrow> no_double CHR '' '' t \<Longrightarrow>
   replace_nonword_runs CHR '' '' (replaceAll CHR '' '' CHR ''-'' t) = t"
proof (induction t)
  case Nil
  then show ?case by (simp add: replaceAll_def)
next
  case (Cons c cs)
  have nd: "no_double CHR '' '' cs"
    using Cons.prems(2) by (auto simp: no_double_def successively_Cons)
  have IH: "replace_nonword_runs CHR '' '' (replaceAll CHR '' '' CHR ''-'' cs) = cs"
    using Cons nd by simp
  show ?case
  proof (cases "c = CHR '' ''")
    case False
    with Cons.prems(1) have "is_word c" by simp
    with False IH show ?thesis by (simp add: replaceAll_def)
  next
    case True
    show ?thesis
    proof (cases cs)
      case Nil
      with True show ?thesis by (simp add: replaceAll_def dash_not_word)
    next
      case (Cons d ds)
      with True Cons.prems(2) have "d \<noteq> CHR '' ''"
        by (auto simp: no_double_def)
      moreover from Cons Cons.prems(1) have "is_word d \<or> d = CHR '' ''" by simp
      ultimately have d: "is_word d" "d \<noteq> CHR '' ''" by auto
      then have "dropWhile (\<lambda>d. \<not> is_word d) (replaceAll CHR '' '' CHR ''-'' cs)
                 = replaceAll CHR '' '' CHR ''-'' cs"
        using Cons by (simp add: replaceAll_def)
      moreover have "replaceAll CHR '' '' CHR ''-'' (c # cs)
                 = CHR ''-'' # replaceAll CHR '' '' CHR ''-'' cs"
        using True by (simp add: replaceAll_def)
      ultimately show ?thesis
        using True IH by (simp add: dash_not_word)
    qed
  qed
qed

lemma toLowerCase_slug: "list_all is_slug_char s \<Longrightarrow> toLowerCase s = s"
  by (induction s) (simp_all add: toLowerCase_def lower_char_slug)

lemma slug_dash: "is_slug_char CHR ''-''"
  by (simp add: is_slug_char_def)

lemma spaced_props:
  fixes s defines "t \<equiv> trim (replace_nonword_runs CHR '' '' (toLowerCase s))"
  shows "\<forall>c\<in>set t. (is_word c \<and> \<not> is_upper c) \<or> c = CHR '' ''"
    and "no_double CHR '' '' t"
    and "t \<noteq> [] \<Longrightarrow> hd t \<noteq> CHR '' '' \<and> last t \<noteq> CHR '' ''"
proof -
  show "\<forall>c\<in>set t. (is_word c \<and> \<not> is_upper c) \<or> c = CHR '' ''"
  proof
    fix c assume "c \<in> set t"
    then have "c \<in> set (replace_nonword_runs CHR '' '' (toLowerCase s))"
      unfolding t_def by (rule set_trim)
    then have "c = CHR '' '' \<or> (c \<in> set (toLowerCase s) \<and> is_word c)"
      by (rule replace_nonword_runs_set)
    then show "(is_word c \<and> \<not> is_upper c) \<or> c = CHR '' ''"
      by (auto simp: toLowerCase_def lower_char_not_upper)
  qed
  show "no_double CHR '' '' t"
    unfolding t_def by (intro no_double_trim replace_nonword_runs_no_double space_not_word)
  show "t \<noteq> [] \<Longrightarrow> hd t \<noteq> CHR '' '' \<and> last t \<noteq> CHR '' ''"
    unfolding t_def using trim_ends space_is_space by metis
qed


lemma take1_hd: "s \<noteq> [] \<Longrightarrow> take (Suc 0) s = [hd s]"
  by (cases s) simp_all

section \<open>Facts about the handlers\<close>

lemma split_not_Nil: "split sep s \<noteq> []"
  by (induction s) (auto split: list.splits)

lemma join_Cons: "ws \<noteq> [] \<Longrightarrow> join sep (w # ws) = w @ sep @ join sep ws"
  by (cases ws) simp_all

lemma join_split: "join [sep] (split sep s) = s"
proof (induction s)
  case Nil
  then show ?case by simp
next
  case (Cons c cs)
  show ?case
  proof (cases "c = sep")
    case True
    with Cons show ?thesis by (simp add: join_Cons split_not_Nil)
  next
    case False
    obtain w ws where w: "split sep cs = w # ws"
      using split_not_Nil[of sep cs] by (cases "split sep cs") auto
    have "join [sep] ((c # w) # ws) = c # join [sep] (w # ws)"
      by (cases ws) simp_all
    with False w Cons show ?thesis by simp
  qed
qed

lemma split_pieces: "p \<in> set (split sep s) \<Longrightarrow> sep \<notin> set p"
proof (induction s arbitrary: p)
  case Nil
  then show ?case by simp
next
  case (Cons c cs)
  obtain w ws where w: "split sep cs = w # ws"
    using split_not_Nil[of sep cs] by (cases "split sep cs") auto
  then have "sep \<notin> set w" "\<And>q. q \<in> set ws \<Longrightarrow> sep \<notin> set q"
    using Cons.IH by simp_all
  with Cons.prems w show ?case
    by (auto split: if_splits)
qed

lemma length_split: "length (split sep s) = Suc (length (filter (\<lambda>c. c = sep) s))"
proof (induction s)
  case Nil
  then show ?case by simp
next
  case (Cons c cs)
  obtain w ws where w: "split sep cs = w # ws"
    using split_not_Nil[of sep cs] by (cases "split sep cs") auto
  with Cons show ?case by auto
qed

lemma apply_effects_Nil: "apply_effects [] st = st"
  by (simp add: apply_effects_def)

lemma apply_effects_Cons: "apply_effects (e # effs) st = apply_effects effs (apply_effect e st)"
  by (simp add: apply_effects_def)

lemma apply_effects_append:
  "apply_effects (effs @ effs') st = apply_effects effs' (apply_effects effs st)"
  by (simp add: apply_effects_def)

lemma onSubmit_step: "step_q (apply_effects (onSubmit env fetched vars nm) st) = step_q st"
  by (cases "new_URL env (field_string (nullish_or Absent Absent))")
     (auto simp: onSubmit_def run_mutation_def onSubmit_mutationFn_def onSubmit_onSuccess_def
        onSubmit_onError_def apply_effects_Cons apply_effects_Nil
        split: option.splits promise.splits sum.splits)

lemma onNameNext_mutationFn_no_step:
  "SetStep v \<notin> set (fst (onNameNext_mutationFn sess fetched nm))"
  by (auto simp: onNameNext_mutationFn_def split: option.splits)

lemma onNameNext_onError_step:
  "step_q (apply_effects (fst (onNameNext_onError env err)) st) = step_q st \<or>
   step_q (apply_effects (fst (onNameNext_onError env err)) st) = Some ''metadata''"
  by (auto simp: onNameNext_onError_def apply_effects_Cons apply_effects_Nil
        split: login_result.splits)

lemma onNameNext_step:
  "step_q (apply_effects (onNameNext env s0 fetched nm) st) = step_q st \<or>
   step_q (apply_effects (onNameNext env s0 fetched nm) st) = Some ''metadata''"
  by (auto simp: onNameNext_def run_mutation_def onNameNext_mutationFn_def
        onNameNext_onSuccess_def onNameNext_onError_def
        apply_effects_Cons apply_effects_Nil apply_effects_append Let_def
        split: option.splits promise.splits login_result.splits)

section \<open>The name step\<close>

text \<open>
  C1, as the code has it. \<^verbatim>\<open>nameStepSchema\<close> accepts a name exactly when its length is at
  least 2 and at most 50, its first and its last character are lowercase letters, and all
  its characters are lowercase letters, digits or dashes. Every other name is rejected with
  at least one issue, an error message under the field's name. The lower bound on the
  length is a condition of its own (\<^verbatim>\<open>min(2)\<close>): the other conditions do not give it.
\<close>

theorem nameStepSchema_accepts_iff:
  "((\<exists>v. nameStepSchema s = Inr v) \<longleftrightarrow>
      2 \<le> length s \<and> length s \<le> 50 \<and> is_lower (hd s) \<and> is_lower (last s)
        \<and> list_all is_name_char s) \<and>
   ((\<exists>i is. nameStepSchema s = Inl (i # is)) \<longleftrightarrow>
      \<not> (2 \<le> length s \<and> length s \<le> 50 \<and> is_lower (hd s) \<and> is_lower (last s)
        \<and> list_all is_name_char s))"
proof (cases "2 \<le> length s \<and> length s \<le> 50 \<and> is_lower (hd s) \<and> is_lower (last s)
        \<and> list_all is_name_char s")
  case True
  then show ?thesis
    by (simp add: nameStepSchema_def name_field_cases)
next
  case False
  then have "run_checks ''name'' name_checks s \<noteq> []"
    by (simp add: run_name_checks_Nil matches_name_full_iff)
  then obtain i "is" where "run_checks ''name'' name_checks s = i # is"
    using run_name_checks_Cons by blast
  with False show ?thesis
    by (simp add: nameStepSchema_def name_field_cases)
qed

theorem nameStepSchema_accepts_iff_witness:
  "nameStepSchema ''arrow-up'' = Inr ''arrow-up'' \<and>
   nameStepSchema ''arrow-up-2'' = Inl [(''name'', ''Name must not end with a number'')]"
proof -
  have "nameStepSchema ''arrow-up-2'' = Inl [(''name'', ''Name must not end with a number'')]"
    by (simp add: nameStepSchema_def name_field_def run_checks_def name_checks_def
          is_lower_def is_name_char_def is_digit_def code_def)
  with nameStepSchema_accepts_iff [of "''arrow-up''"] name_field_cases [of "''arrow-up''"]
  show ?thesis
    by (simp add: nameStepSchema_def is_lower_def is_name_char_def is_digit_def code_def)
qed

text \<open>
  C1, as it is written, fails at the one-letter name \<^verbatim>\<open>a\<close>: it is no longer than 50, it
  starts and ends with a lowercase letter and has no other character, and the schema
  rejects it with the messages of \<^verbatim>\<open>min(2)\<close> and of the second pattern.
\<close>

theorem nameStepSchema_one_letter_rejected:
  "length ''a'' \<le> 50 \<and> is_lower (hd ''a'') \<and> is_lower (last ''a'') \<and>
   list_all is_name_char ''a'' \<and>
   nameStepSchema ''a'' =
     Inl [(''name'', ''Name must be at least 2 characters long.''),
          (''name'', ''Name must not end with a number'')]"
  by (simp add: nameStepSchema_def name_field_def run_checks_def name_checks_def
        is_lower_def is_name_char_def code_def)

text \<open>
  C6. The transform of the name schema is the identity on every string that starts and ends
  with a lowercase letter and has only lowercase letters, digits and dashes; every name the
  schema accepts is such a string, so the schema returns an accepted name as it was given.
\<close>

theorem name_transform_identity:
  "(s \<noteq> [] \<and> is_lower (hd s) \<and> is_lower (last s) \<and> list_all is_name_char s \<longrightarrow>
      name_transform s = s) \<and>
   (\<forall>v. nameStepSchema s = Inr v \<longrightarrow>
      v = s \<and> name_transform s = s \<and>
      s \<noteq> [] \<and> is_lower (hd s) \<and> is_lower (last s) \<and> list_all is_name_char s)"
proof -
  have "name_transform s = s"
    if "s \<noteq> []" "is_lower (hd s)" "is_lower (last s)" "list_all is_name_char s"
    using that by (rule name_transform_fixes)
  moreover have "v = s \<and> s \<noteq> [] \<and> is_lower (hd s) \<and> is_lower (last s) \<and>
      list_all is_name_char s" if "nameStepSchema s = Inr v" for v
    using that by (auto simp: nameStepSchema_def name_field_cases split: if_splits)
  ultimately show ?thesis by blast
qed

theorem name_transform_identity_witness:
  "''arrow-up'' \<noteq> [] \<and> is_lower (hd ''arrow-up'') \<and> is_lower (last ''arrow-up'') \<and>
   list_all is_name_char ''arrow-up'' \<and> name_transform ''arrow-up'' = ''arrow-up'' \<and>
   nameStepSchema ''arrow-up'' = Inr ''arrow-up''"
  using name_transform_identity [of "''arrow-up''"] name_field_cases [of "''arrow-up''"]
  by (simp add: nameStepSchema_def is_lower_def is_name_char_def is_digit_def code_def)

text \<open>
  C7. The value that \<^verbatim>\<open>onBlur\<close> writes is a fixed point of \<^verbatim>\<open>onBlur\<close>: applying the
  handler's expression twice gives what applying it once gives. That value has only
  lowercase letters, digits, underscores and dashes, and a dash is neither its first nor
  its last character.
\<close>

theorem onBlur_value_idempotent:
  "onBlur_value (onBlur_value s) = onBlur_value s \<and>
   list_all is_slug_char (onBlur_value s) \<and>
   take 1 (onBlur_value s) \<noteq> ''-'' \<and>
   take 1 (rev (onBlur_value s)) \<noteq> ''-''"
proof -
  define t where "t = trim (replace_nonword_runs CHR '' '' (toLowerCase s))"
  define u where "u = replaceAll CHR '' '' CHR ''-'' t"
  have u: "onBlur_value s = u" by (simp add: onBlur_value_def t_def u_def)
  have chars: "\<forall>c\<in>set t. (is_word c \<and> \<not> is_upper c) \<or> c = CHR '' ''"
    and nd: "no_double CHR '' '' t"
    and ends: "t \<noteq> [] \<Longrightarrow> hd t \<noteq> CHR '' '' \<and> last t \<noteq> CHR '' ''"
    unfolding t_def by (rule spaced_props)+
  have slug: "list_all is_slug_char u"
    using chars by (auto simp: u_def replaceAll_def list_all_iff slug_dash word_not_upper)
  have "replace_nonword_runs CHR '' '' u = t"
    unfolding u_def using chars nd by (intro replace_runs_of_dashed) auto
  moreover have "trim t = t" unfolding t_def by (rule trim_trim)
  ultimately have idem: "onBlur_value u = u"
    using slug by (simp add: onBlur_value_def toLowerCase_slug u_def)
  have edge: "take 1 u \<noteq> ''-'' \<and> take 1 (rev u) \<noteq> ''-''"
  proof (cases "t = []")
    case True
    then show ?thesis by (simp add: u_def replaceAll_def)
  next
    case False
    then have "is_word (hd t)" "is_word (last t)"
      using chars ends by (metis hd_in_set, metis last_in_set)
    then have "hd t \<noteq> CHR ''-''" "last t \<noteq> CHR ''-''"
      using dash_not_word by auto
    moreover have "hd u = hd t" "last u = last t"
      using False ends by (simp_all add: u_def hd_replaceAll last_replaceAll)
    moreover have "u \<noteq> []" using False by (simp add: u_def replaceAll_Nil)
    ultimately show ?thesis
      by (simp add: take1_hd hd_rev)
  qed
  from idem slug edge show ?thesis unfolding u by simp
qed

theorem onBlur_value_idempotent_witness:
  "onBlur_value '' Arrow  Up_2!'' = ''arrow-up_2'' \<and>
   onBlur_value ''arrow-up_2'' = ''arrow-up_2''"
proof -
  have v: "onBlur_value '' Arrow  Up_2!'' = ''arrow-up_2''"
    by code_simp
  with onBlur_value_idempotent [of "'' Arrow  Up_2!''"] show ?thesis by simp
qed

text \<open>
  C9. The \<^verbatim>\<open>branch\<close> field carries no check: absent, empty or any other string, it is
  accepted and returned as it was given. The verdict of the schema of
  \<^verbatim>\<open>FormStepNames.tsx\<close> is the verdict on the name alone, and an accepted input keeps
  its branch.
\<close>

theorem formStepNamesSchema_branch_optional:
  "branch_field b = Inr b \<and>
   formStepNamesSchema i =
     (case name_field (name_in i) of
        Inl e \<Rightarrow> Inl e
      | Inr v \<Rightarrow> Inr \<lparr>name_out = v, branch_out = branch_in i\<rparr>) \<and>
   ((\<exists>v. name_field (name_in i) = Inr v) \<longrightarrow>
      (\<exists>out. formStepNamesSchema i = Inr out \<and> branch_out out = branch_in i))"
  by (auto simp: formStepNamesSchema_def branch_field_def split: sum.splits)

theorem formStepNamesSchema_branch_optional_witness:
  "formStepNamesSchema \<lparr>name_in = ''arrow-up'', branch_in = None\<rparr>
     = Inr \<lparr>name_out = ''arrow-up'', branch_out = None\<rparr> \<and>
   formStepNamesSchema \<lparr>name_in = ''arrow-up'', branch_in = Some []\<rparr>
     = Inr \<lparr>name_out = ''arrow-up'', branch_out = Some []\<rparr> \<and>
   formStepNamesSchema \<lparr>name_in = ''arrow-up'', branch_in = Some ''my branch!''\<rparr>
     = Inr \<lparr>name_out = ''arrow-up'', branch_out = Some ''my branch!''\<rparr>"
  using formStepNamesSchema_branch_optional [of None "\<lparr>name_in = ''arrow-up'', branch_in = None\<rparr>"]
        formStepNamesSchema_branch_optional [of None "\<lparr>name_in = ''arrow-up'', branch_in = Some []\<rparr>"]
        formStepNamesSchema_branch_optional
          [of None "\<lparr>name_in = ''arrow-up'', branch_in = Some ''my branch!''\<rparr>"]
        name_field_cases [of "''arrow-up''"]
  by (simp add: is_lower_def is_name_char_def is_digit_def code_def)

section \<open>The wizard and its two mutations\<close>

text \<open>
  C2. The dialog shows the name form exactly when the \<^verbatim>\<open>step\<close> query state is
  \<^verbatim>\<open>name\<close>, which it is when the parameter is missing, and the metadata form for every
  other value; a view is one of these two. An event changes the step only in two ways: the
  name step's mutation, once settled, sets it to \<^verbatim>\<open>metadata\<close> (its \<^verbatim>\<open>mutationFn\<close> never
  sets it), and Back sets it to \<^verbatim>\<open>name\<close>.
\<close>

theorem wizard_steps:
  "(render st = NameForm \<longleftrightarrow> step st = ''name'') \<and>
   (render st = MetadataForm \<longleftrightarrow> step st \<noteq> ''name'') \<and>
   (step_q st = None \<longrightarrow> render st = NameForm) \<and>
   (step (dispatch env st ev) \<noteq> step st \<longrightarrow>
      (is_NameNext ev \<and> step (dispatch env st ev) = ''metadata'') \<or>
      (ev = Back \<and> step (dispatch env st ev) = ''name'')) \<and>
   step (dispatch env st Back) = ''name'' \<and>
   (\<forall>nm fetched v. SetStep v \<notin> set (fst (onNameNext_mutationFn (session env) fetched nm)))"
proof -
  have moves: "step (dispatch env st ev) \<noteq> step st \<longrightarrow>
      (is_NameNext ev \<and> step (dispatch env st ev) = ''metadata'') \<or>
      (ev = Back \<and> step (dispatch env st ev) = ''name'')"
  proof (cases ev)
    case (NameNext nm fetched)
    then show ?thesis
      using onNameNext_step [of env st fetched nm st]
      by (auto simp: dispatch_def step_def)
  next
    case (Submit vars fetched)
    then show ?thesis
      by (simp add: dispatch_def step_def onSubmit_step)
  next
    case Back
    then show ?thesis
      by (simp add: dispatch_def step_def apply_effects_def)
  next
    case (NameChange raw)
    then show ?thesis
      by (simp add: dispatch_def step_def apply_effects_def name_edited_def)
  next
    case (NameBlur raw)
    then show ?thesis
      by (simp add: dispatch_def step_def apply_effects_def name_edited_def)
  next
    case (OpenChange b)
    then show ?thesis
      by (simp add: dispatch_def step_def apply_effects_def)
  qed
  have "step (dispatch env st Back) = ''name''"
    by (simp add: dispatch_def step_def apply_effects_def)
  with moves show ?thesis
    by (simp add: render_def step_def onNameNext_mutationFn_no_step)
qed

theorem wizard_steps_witness:
  "step_q example_state = None \<and> render example_state = NameForm \<and>
   step (dispatch example_env example_state (NameNext ''arrow-up'' (Resolved example_lookup)))
     = ''metadata'' \<and>
   render (dispatch example_env example_state (NameNext ''arrow-up'' (Resolved example_lookup)))
     = MetadataForm \<and>
   step (dispatch example_env
          (dispatch example_env example_state (NameNext ''arrow-up'' (Resolved example_lookup)))
          Back) = ''name''"
proof -
  let ?ev = "NameNext ''arrow-up'' (Resolved example_lookup)"
  have "onNameNext example_env example_state (Resolved example_lookup) ''arrow-up'' =
     [FetchGet ''/api/metadata/arrow-up'',
      SetValue Categories (Some (''arrows'' @ [nl] @ ''navigation'')),
      SetValue Contributors (Some (''ericfennis'' @ [nl] @ ''octocat'')),
      SetStep ''metadata'']"
    by code_simp
  then have moved: "step (dispatch example_env example_state ?ev) = ''metadata''"
    by (simp add: dispatch_def apply_effects_def step_def)
  have start: "step_q example_state = None"
    by (simp add: example_state_def)
  from wizard_steps [of example_state example_env ?ev] start
  have "render example_state = NameForm" by blast
  moreover from wizard_steps [of "dispatch example_env example_state ?ev" example_env Back]
  have "step (dispatch example_env (dispatch example_env example_state ?ev) Back) = ''name''"
    by blast
  moreover from wizard_steps [of "dispatch example_env example_state ?ev" example_env Back] moved
  have "render (dispatch example_env example_state ?ev) = MetadataForm"
    by simp
  ultimately show ?thesis using start moved by blast
qed

text \<open>
  C3. Without a signed-in user each of the two \<^verbatim>\<open>mutationFn\<close>s calls
  \<^verbatim>\<open>signIn("github")\<close>, does nothing else and resolves with \<^verbatim>\<open>undefined\<close>. Each of
  them issues a request if and only if there is a user: then the name step's issues the one
  GET of \<^verbatim>\<open>/api/metadata/<name>\<close> and the submission's the one POST to
  \<^verbatim>\<open>/api/submit\<close>.
\<close>

theorem signIn_without_user:
  "(session_user_of sess = None \<longrightarrow>
      onNameNext_mutationFn sess fetched nm = ([SignIn ''github''], Resolved None) \<and>
      onSubmit_mutationFn sess val fetched' vars nm' = ([SignIn ''github''], Resolved None)) \<and>
   (list_ex is_request (fst (onNameNext_mutationFn sess fetched nm)) \<longleftrightarrow>
      session_user_of sess \<noteq> None) \<and>
   (list_ex is_request (fst (onSubmit_mutationFn sess val fetched' vars nm')) \<longleftrightarrow>
      session_user_of sess \<noteq> None) \<and>
   (session_user_of sess \<noteq> None \<longrightarrow>
      fst (onNameNext_mutationFn sess fetched nm) = [FetchGet (''/api/metadata/'' @ nm)] \<and>
      fst (onSubmit_mutationFn sess val fetched' vars nm') =
        [FetchPost ''/api/submit'' (submit_body val vars nm'), Delay 1500])"
  by (auto simp: onNameNext_mutationFn_def onSubmit_mutationFn_def split: option.splits)

theorem signIn_without_user_witness:
  "session_user_of example_signed_out = None \<and>
   onNameNext_mutationFn example_signed_out (Resolved example_lookup) ''arrow-up''
     = ([SignIn ''github''], Resolved None) \<and>
   onSubmit_mutationFn example_signed_out ''<path/>'' (Resolved example_created)
       example_values ''arrow-up''
     = ([SignIn ''github''], Resolved None) \<and>
   session_user_of (session example_env) \<noteq> None \<and>
   fst (onNameNext_mutationFn (session example_env) (Resolved example_lookup) ''arrow-up'')
     = [FetchGet ''/api/metadata/arrow-up'']"
proof -
  have "session_user_of example_signed_out = None"
    by (simp add: session_user_of_def example_signed_out_def)
  moreover have "session_user_of (session example_env) \<noteq> None"
    by (simp add: session_user_of_def example_env_def)
  ultimately show ?thesis
    using signIn_without_user [of example_signed_out "Resolved example_lookup" "''arrow-up''"
            "''<path/>''" "Resolved example_created" example_values "''arrow-up''"]
          signIn_without_user [of "session example_env" "Resolved example_lookup"
            "''arrow-up''" "''<path/>''" "Resolved example_created" example_values
            "''arrow-up''"]
    by simp
qed

text \<open>
  C4. After a POST that succeeded, with a response whose JSON body can be read and whose
  selected URL \<^verbatim>\<open>new URL\<close> accepts, the component opens that URL with the target
  \<^verbatim>\<open>_blank\<close>: \<^verbatim>\<open>pullRequestExistingUrl\<close> when the body has it as a string, and
  \<^verbatim>\<open>pullRequestCreationUrl\<close> when it is missing or \<^verbatim>\<open>null\<close>. After that and a wait it
  sets the \<^verbatim>\<open>contributionDialog\<close> query state to false, which closes the dialog; the
  step stays as it was.
\<close>

theorem onSubmit_success_opens_url:
  assumes "session_user_of (session env) = Some usr"
    and "ok res"
    and "body_json res = Resolved urls"
    and "target = (case pullRequestExistingUrl urls of
                     JString existing \<Rightarrow> existing
                   | Absent \<Rightarrow> field_string (pullRequestCreationUrl urls)
                   | JNull \<Rightarrow> field_string (pullRequestCreationUrl urls))"
    and "new_URL env target = Inr url"
  shows "onSubmit env (Resolved res) vars nm =
           [FetchPost ''/api/submit'' (submit_body (value_prop env) vars nm), Delay 1500,
            WindowOpen url ''_blank'', Delay 2000, SetOpen False] \<and>
         \<not> is_open (dispatch env st (Submit vars (Resolved res))) \<and>
         step (dispatch env st (Submit vars (Resolved res))) = step st"
proof -
  have "field_string (nullish_or (pullRequestExistingUrl urls) (pullRequestCreationUrl urls))
          = target"
    using assms(4) by (cases "pullRequestExistingUrl urls") simp_all
  with assms have eff: "onSubmit env (Resolved res) vars n =
           [FetchPost ''/api/submit'' (submit_body (value_prop env) vars n), Delay 1500,
            WindowOpen url ''_blank'', Delay 2000, SetOpen False]" for n
    by (simp add: onSubmit_def run_mutation_def onSubmit_mutationFn_def onSubmit_onSuccess_def)
  then show ?thesis
    by (simp add: dispatch_def apply_effects_def is_open_def step_def)
qed

theorem onSubmit_success_opens_url_witness:
  "is_open example_state \<and>
   onSubmit example_env (Resolved example_created) example_values ''arrow-up'' =
     [FetchPost ''/api/submit'' (submit_body ''<path/>'' example_values ''arrow-up''),
      Delay 1500, WindowOpen ''https://github.com/compare'' ''_blank'', Delay 2000,
      SetOpen False] \<and>
   \<not> is_open (dispatch example_env example_state (Submit example_values (Resolved example_created))) \<and>
   onSubmit example_env (Resolved example_existing) example_values ''arrow-up'' =
     [FetchPost ''/api/submit'' (submit_body ''<path/>'' example_values ''arrow-up''),
      Delay 1500, WindowOpen ''https://github.com/pull/7'' ''_blank'', Delay 2000,
      SetOpen False]"
proof -
  have usr: "session_user_of (session example_env)
               = Some \<lparr>user_image = Some ''{login: octocat}''\<rparr>"
    by (simp add: session_user_of_def example_env_def)
  have created:
    "ok example_created"
    "body_json example_created =
       Resolved \<lparr>pullRequestCreationUrl = JString ''https://github.com/compare'',
                 pullRequestExistingUrl = Absent\<rparr>"
    by (simp_all add: example_created_def)
  have existing:
    "ok example_existing"
    "body_json example_existing =
       Resolved \<lparr>pullRequestCreationUrl = JString ''https://github.com/compare'',
                 pullRequestExistingUrl = JString ''https://github.com/pull/7''\<rparr>"
    by (simp_all add: example_existing_def)
  have urls:
    "new_URL example_env ''https://github.com/compare'' = Inr ''https://github.com/compare''"
    "new_URL example_env ''https://github.com/pull/7'' = Inr ''https://github.com/pull/7''"
    by (simp_all add: example_env_def)
  have v: "value_prop example_env = ''<path/>''"
    by (simp add: example_env_def)
  have op: "is_open example_state"
    by (simp add: is_open_def example_state_def)
  show ?thesis
    using op v
      onSubmit_success_opens_url [OF usr created _ urls(1),
        where vars = example_values and nm = "''arrow-up''" and st = example_state]
      onSubmit_success_opens_url [OF usr existing _ urls(2),
        where vars = example_values and nm = "''arrow-up''" and st = example_state]
    by simp
qed

text \<open>
  C5. When the lookup succeeded (a user is signed in, the request and the reading of its JSON
  body resolved), a form value that is not empty stays as it was, for each of categories,
  tags and contributors. An empty value of categories or tags is set to the lines of the
  response; an empty value of contributors is set to the response's contributors and the
  user's login, each once, unless the login cannot be parsed, and then it stays empty.
\<close>

theorem prefill_keeps_values:
  assumes "session_user_of (session env) = Some usr"
    and "body_json res = Resolved d"
    and "st' = dispatch env st (NameNext nm (Resolved res))"
  shows "(truthy (categories_v st) \<longrightarrow> categories_v st' = categories_v st) \<and>
         (truthy (tags_v st) \<longrightarrow> tags_v st' = tags_v st) \<and>
         (truthy (contributors_v st) \<longrightarrow> contributors_v st' = contributors_v st) \<and>
         (\<not> truthy (categories_v st) \<longrightarrow>
            categories_v st' = Some (join [nl] (categories d))) \<and>
         (\<not> truthy (tags_v st) \<longrightarrow> tags_v st' = Some (join [nl] (tags d))) \<and>
         (\<not> truthy (contributors_v st) \<longrightarrow>
            contributors_v st' =
              (case parse_login env (image_or_empty (session env)) of
                 Throws e \<Rightarrow> contributors_v st
               | r \<Rightarrow> Some (join [nl] (map string_of
                          (first_truthy_occurrences
                             (map Some (contributors d) @ [login_value r]))))))"
  using assms
  by (cases "parse_login env (image_or_empty (session env))")
     (simp_all add: dispatch_def onNameNext_def run_mutation_def onNameNext_mutationFn_def
        onNameNext_onSuccess_def onNameNext_onError_def
        apply_effects_Cons apply_effects_Nil apply_effects_append Let_def)

theorem prefill_keeps_values_witness:
  "truthy (tags_v example_state) \<and> \<not> truthy (categories_v example_state) \<and>
   \<not> truthy (contributors_v example_state) \<and>
   tags_v (dispatch example_env example_state (NameNext ''arrow-up'' (Resolved example_lookup)))
     = Some ''up'' \<and>
   categories_v (dispatch example_env example_state
       (NameNext ''arrow-up'' (Resolved example_lookup)))
     = Some (''arrows'' @ [nl] @ ''navigation'') \<and>
   contributors_v (dispatch example_env example_state
       (NameNext ''arrow-up'' (Resolved example_lookup)))
     = Some (''ericfennis'' @ [nl] @ ''octocat'')"
proof -
  have usr: "session_user_of (session example_env)
               = Some \<lparr>user_image = Some ''{login: octocat}''\<rparr>"
    by (simp add: session_user_of_def example_env_def)
  have body: "body_json example_lookup =
      Resolved \<lparr>categories = [''arrows'', ''navigation''], tags = [''north''],
                contributors = [''ericfennis'', ''octocat'', ''ericfennis'']\<rparr>"
    by (simp add: example_lookup_def)
  have login: "parse_login example_env (image_or_empty (session example_env))
                 = Login ''octocat''"
    by (simp add: image_or_empty_def session_user_of_def example_env_def)
  have names: "first_truthy_occurrences
                 [Some ''ericfennis'', Some ''octocat'', Some ''ericfennis'', Some ''octocat'']
               = [Some ''ericfennis'', Some ''octocat'']"
    by code_simp
  have before: "tags_v example_state = Some ''up''" "categories_v example_state = None"
    "contributors_v example_state = Some []"
    by (simp_all add: example_state_def)
  show ?thesis
    using prefill_keeps_values [OF usr body refl, of example_state "''arrow-up''"]
    by (simp add: before login names)
qed

text \<open>
  C8. The body of the POST is an object with the keys \<^verbatim>\<open>categories\<close>, \<^verbatim>\<open>tags\<close>,
  \<^verbatim>\<open>contributors\<close>, \<^verbatim>\<open>name\<close> and \<^verbatim>\<open>value\<close>: each of the first three is the array
  of the trimmed pieces of its text, split at the newline characters, next to the name and
  the \<^verbatim>\<open>value\<close> prop; with a user signed in, this body is what is posted to
  \<^verbatim>\<open>/api/submit\<close>. The pieces of a text are its parts between the newlines: joined with
  newlines they give the text back, no piece has a newline, and there is one piece more
  than there are newlines. Trimming an entry takes whitespace, and nothing else, from its
  two ends, and leaves none at either end.
\<close>

theorem submit_body_arrays:
  "submit_body val vars nm =
     JObj [(''categories'', JArr (map (\<lambda>v. JStr (trim v)) (split nl (v_categories vars)))),
           (''tags'', JArr (map (\<lambda>v. JStr (trim v)) (split nl (v_tags vars)))),
           (''contributors'', JArr (map (\<lambda>v. JStr (trim v)) (split nl (v_contributors vars)))),
           (''name'', JStr nm),
           (''value'', JStr val)] \<and>
   (session_user_of sess \<noteq> None \<longrightarrow>
      fst (onSubmit_mutationFn sess val fetched vars nm) =
        [FetchPost ''/api/submit'' (submit_body val vars nm), Delay 1500]) \<and>
   join [nl] (split nl s) = s \<and>
   (\<forall>p\<in>set (split nl s). nl \<notin> set p) \<and>
   length (split nl s) = Suc (length (filter (\<lambda>c. c = nl) s)) \<and>
   (\<exists>a b. e = a @ trim e @ b \<and> list_all is_space a \<and> list_all is_space b) \<and>
   (trim e = [] \<or> (\<not> is_space (hd (trim e)) \<and> \<not> is_space (last (trim e))))"
proof -
  have "submit_body val vars nm =
     JObj [(''categories'', JArr (map (\<lambda>v. JStr (trim v)) (split nl (v_categories vars)))),
           (''tags'', JArr (map (\<lambda>v. JStr (trim v)) (split nl (v_tags vars)))),
           (''contributors'', JArr (map (\<lambda>v. JStr (trim v)) (split nl (v_contributors vars)))),
           (''name'', JStr nm),
           (''value'', JStr val)]"
    by (simp add: submit_body_def trimmed_lines_def)
  moreover have "session_user_of sess \<noteq> None \<longrightarrow>
      fst (onSubmit_mutationFn sess val fetched vars nm) =
        [FetchPost ''/api/submit'' (submit_body val vars nm), Delay 1500]"
    by (auto simp: onSubmit_mutationFn_def)
  moreover have "\<forall>p\<in>set (split nl s). nl \<notin> set p"
    using split_pieces by blast
  moreover have "trim e = [] \<or> (\<not> is_space (hd (trim e)) \<and> \<not> is_space (last (trim e)))"
    using trim_ends [of e] by blast
  ultimately show ?thesis
    using join_split [of nl s] length_split [of nl s] trim_decomposition [of e] by blast
qed

theorem submit_body_arrays_witness:
  "session_user_of (session example_env) \<noteq> None \<and>
   fst (onSubmit_mutationFn (session example_env) ''<path/>'' (Resolved example_created)
          example_values ''arrow-up'') =
     [FetchPost ''/api/submit''
        (JObj [(''categories'', JArr [JStr ''arrows'']),
               (''tags'', JArr [JStr ''up'', JStr ''n'']),
               (''contributors'', JArr [JStr ''octocat'']),
               (''name'', JStr ''arrow-up''),
               (''value'', JStr ''<path/>'')]),
      Delay 1500] \<and>
   split nl (v_tags example_values) = [''up '', ''n'']"
proof -
  have usr: "session_user_of (session example_env) \<noteq> None"
    by (simp add: session_user_of_def example_env_def)
  have pieces: "split nl (v_categories example_values) = [''arrows'']"
    "split nl (v_tags example_values) = [''up '', ''n'']"
    "split nl (v_contributors example_values) = [''octocat'']"
    by code_simp+
  have trimmed: "trim ''arrows'' = ''arrows''" "trim ''up '' = ''up''" "trim ''n'' = ''n''"
    "trim ''octocat'' = ''octocat''"
    by code_simp+
  show ?thesis
    using usr submit_body_arrays [of "''<path/>''" example_values "''arrow-up''"
        "session example_env" "Resolved example_created" "[]" "[]"]
    by (simp add: pieces trimmed)
qed

text \<open>
  C10. When the POST fails, because \<^verbatim>\<open>fetch\<close> rejects or because the response is not
  \<^verbatim>\<open>ok\<close>, the mutation rejects: with the error of \<^verbatim>\<open>fetch\<close>, or with an error whose
  message is the text of the response (or with the error of reading that text). The error
  handler then sets \<^verbatim>\<open>root.serverError\<close> to that error's message, and to
  \<^verbatim>\<open>An error occurred while submitting the form.\<close> when the message is empty. The
  dialog's open state and the step stay as they were, and no URL is opened.
\<close>

theorem onSubmit_failure_sets_server_error:
  assumes "session_user_of (session env) = Some usr"
    and "(case fetched of Rejected e \<Rightarrow> True | Resolved res \<Rightarrow> \<not> ok res)"
    and "err = (case fetched of
                  Rejected e \<Rightarrow> e
                | Resolved res \<Rightarrow>
                    (case body_text res of Rejected e \<Rightarrow> e | Resolved t \<Rightarrow> JsError t))"
    and "st' = dispatch env st (Submit vars fetched)"
  shows "snd (onSubmit_mutationFn (session env) (value_prop env) fetched vars (name st))
           = Rejected err \<and>
         server_error st' =
           Some (if message err = [] then ''An error occurred while submitting the form.''
                 else message err) \<and>
         open_q st' = open_q st \<and> is_open st' = is_open st \<and>
         step_q st' = step_q st \<and> render st' = render st \<and>
         \<not> list_ex is_window_open (effects_of env st (Submit vars fetched))"
  using assms
  by (auto simp: dispatch_def apply_effects_def onSubmit_def run_mutation_def
        onSubmit_mutationFn_def onSubmit_onError_def is_open_def render_def step_def
        split: promise.splits)

theorem onSubmit_failure_sets_server_error_witness:
  "\<not> ok example_refused \<and>
   snd (onSubmit_mutationFn (session example_env) (value_prop example_env)
          (Resolved example_refused) example_values (name example_state))
     = Rejected (JsError ''Icon already exists'') \<and>
   server_error (dispatch example_env example_state
       (Submit example_values (Resolved example_refused)))
     = Some ''Icon already exists'' \<and>
   server_error (dispatch example_env example_state
       (Submit example_values (Rejected (JsError []))))
     = Some ''An error occurred while submitting the form.'' \<and>
   is_open (dispatch example_env example_state
       (Submit example_values (Resolved example_refused)))"
proof -
  have usr: "session_user_of (session example_env)
               = Some \<lparr>user_image = Some ''{login: octocat}''\<rparr>"
    by (simp add: session_user_of_def example_env_def)
  have refused: "\<not> ok example_refused"
    "body_text example_refused = Resolved ''Icon already exists''"
    by (simp_all add: example_refused_def)
  have op: "is_open example_state"
    by (simp add: is_open_def example_state_def)
  have a: "(case Resolved example_refused of Rejected e \<Rightarrow> True | Resolved res \<Rightarrow> \<not> ok res)"
       and b: "(case (Rejected (JsError []) :: pr_urls response promise) of
                  Rejected e \<Rightarrow> True | Resolved res \<Rightarrow> \<not> ok res)"
    using refused by simp_all
  show ?thesis
    using refused op
      onSubmit_failure_sets_server_error [OF usr a refl refl,
        where vars = example_values and st = example_state]
      onSubmit_failure_sets_server_error [OF usr b refl refl,
        where vars = example_values and st = example_state]
    by simp
qed

end
